theory Spec2Isabelle
  imports Complex_Main "HOL-Library.Word"
begin

unbundle bit_operations_syntax

section \<open>The MSA301 accelerometer driver (adafruit_msa301.py)\<close>

text \<open>
  The driver class \<open>MSA301\<close> keeps no state of its own: every attribute is a descriptor
  bound to a device register, and every access is a bus transaction. The model therefore
  threads one value through all operations, the device behind the bus: its register file
  and the list of transactions issued so far.

  Python integers are \<open>int\<close>; the bytes of a \<open>bytearray\<close> are \<open>8 word\<close>. Python floats
  are modelled by exact reals: the division of a 14-bit sample by a power of two is exact
  in binary64, the rounding of the final product with 9.806 is not represented.
\<close>

subsection \<open>Bus transport\<close>

type_synonym byte = "8 word"

datatype bus_op = BusRead nat nat | BusWrite nat "byte list"

record bus =
  regs :: "nat \<Rightarrow> byte"
  log :: "bus_op list"

text \<open>
  \<open>AttributeError\<close> is the exception raised by \<open>MSA301.__init__\<close> (the spec's
  DeviceNotFoundError), with its message. \<open>InvalidArgumentError\<close> is the spec's name for
  the rejection of a field value that does not fit the field. \<open>StructError\<close> is
  \<open>struct.error\<close>, raised by \<open>struct.unpack_from\<close> on a buffer that is too short.
\<close>

datatype error = AttributeError string | InvalidArgumentError | StructError

type_synonym 'a io = "bus \<Rightarrow> bus \<times> (error + 'a)"

definition return_io :: "'a \<Rightarrow> 'a io" where
  "return_io a s = (s, Inr a)"

definition raise_io :: "error \<Rightarrow> 'a io" where
  "raise_io e s = (s, Inl e)"

text \<open>Sequencing of two statements: an exception in the first skips the second, and the
  device keeps whatever the first did to it.\<close>

definition bind_io :: "'a io \<Rightarrow> ('a \<Rightarrow> 'b io) \<Rightarrow> 'b io" where
  "bind_io m f s = (case m s of (s', Inl e) \<Rightarrow> (s', Inl e) | (s', Inr a) \<Rightarrow> f a s')"

fun store :: "(nat \<Rightarrow> byte) \<Rightarrow> nat \<Rightarrow> byte list \<Rightarrow> (nat \<Rightarrow> byte)" where
  "store m a [] = m"
| "store m a (b # bs) = store (m(a := b)) (Suc a) bs"

text \<open>
  Modelled from the spec: the bus-transport collaborator (adafruit_bus_device, not part
  of the driver's source). Section 6 of the spec gives its contract:
  \<open>read(register_offset, byte_count)\<close> returns exactly \<open>byte_count\<close> bytes, the registers
  from \<open>register_offset\<close> upwards (register auto-increment), and
  \<open>write(register_offset, bytes)\<close> writes the bytes starting at that register. The device
  is a passive register file; a transport failure is not modelled.
\<close>

definition bus_read :: "nat \<Rightarrow> nat \<Rightarrow> (byte list) io" where
  "bus_read reg n s =
     (s\<lparr>log := log s @ [BusRead reg n]\<rparr>, Inr (map (\<lambda>i. regs s (reg + i)) [0..<n]))"

definition bus_write :: "nat \<Rightarrow> byte list \<Rightarrow> unit io" where
  "bus_write reg bs s =
     (s\<lparr>regs := store (regs s) reg bs, log := log s @ [BusWrite reg bs]\<rparr>, Inr ())"

fun is_write :: "bus_op \<Rightarrow> bool" where
  "is_write (BusWrite _ _) = True"
| "is_write (BusRead _ _) = False"

subsection \<open>Register descriptors\<close>

text \<open>A multi-byte register as one integer, the byte of the lowest register address least
  significant, and back.\<close>

definition reg_of_bytes :: "byte list \<Rightarrow> int" where
  "reg_of_bytes bs = foldr (\<lambda>b reg. push_bit 8 reg OR uint b) bs 0"

definition bytes_of_reg :: "nat \<Rightarrow> int \<Rightarrow> byte list" where
  "bytes_of_reg n reg = map (\<lambda>i. word_of_int (drop_bit (8 * i) reg AND 0xFF)) [0..<n]"

record bits_field =
  num_bits :: nat
  register_address :: nat
  lowest_bit :: nat
  register_width :: nat

definition bit_mask :: "bits_field \<Rightarrow> int" where
  "bit_mask f = push_bit (lowest_bit f) (push_bit (num_bits f) 1 - 1)"

text \<open>
  Modelled from the spec: the getter of the descriptors \<open>RWBits\<close> and \<open>ROBits\<close>
  (adafruit_register.i2c_bits, not part of the driver's source). Section 4.1: "Get
  performs the symmetric mask-and-shift extraction without a write"; for the 48-bit
  field the six bytes are read in one transaction and taken as one integer, the byte that
  arrives first lowest.
\<close>

definition rwbits_get :: "bits_field \<Rightarrow> int io" where
  "rwbits_get f =
     bind_io (bus_read (register_address f) (register_width f)) (\<lambda>bs.
       return_io (drop_bit (lowest_bit f) (reg_of_bytes bs AND bit_mask f)))"

text \<open>
  Modelled from the spec: the setter of the descriptor \<open>RWBits\<close>
  (adafruit_register.i2c_bits, not part of the driver's source). Section 4.1: "read the
  containing register, mask out the target bit span, OR in the new value (already
  validated to fit within the field's bit-width -- fails with InvalidArgumentError if the
  caller supplies a value exceeding the field's bit-width), write the register back";
  section 7: "rejected before any bus write". The rejection is the spec's sentence and
  nothing more: the driver's own source has no check, and no property below depends on
  what the setter does with a value that does not fit.
\<close>

definition rwbits_set :: "bits_field \<Rightarrow> int \<Rightarrow> unit io" where
  "rwbits_set f v =
     (if v < 0 \<or> push_bit (num_bits f) 1 \<le> v then raise_io InvalidArgumentError
      else
        bind_io (bus_read (register_address f) (register_width f)) (\<lambda>bs.
          bus_write (register_address f)
            (bytes_of_reg (register_width f)
               ((reg_of_bytes bs AND NOT (bit_mask f)) OR push_bit (lowest_bit f) v))))"

text \<open>
  Modelled from the spec: the descriptor \<open>RWBit\<close> (adafruit_register.i2c_bit, not part of
  the driver's source): by the register map of section 6 a field of width 1, read and
  written like the others, its value a Boolean.
\<close>

definition rwbit_get :: "bits_field \<Rightarrow> bool io" where
  "rwbit_get f = bind_io (rwbits_get f) (\<lambda>v. return_io (v \<noteq> 0))"

definition rwbit_set :: "bits_field \<Rightarrow> bool \<Rightarrow> unit io" where
  "rwbit_set f b = rwbits_set f (if b then 1 else 0)"

text \<open>
  Modelled from the spec: the descriptor \<open>ROUnaryStruct\<close> with format \<open><B\<close>
  (adafruit_register.i2c_struct, not part of the driver's source): section 4.1, "reads
  the part-id register (1 byte, offset 0x01)", as an unsigned integer.
\<close>

definition unary_struct_get_B :: "nat \<Rightarrow> int io" where
  "unary_struct_get_B reg = bind_io (bus_read reg 1) (\<lambda>bs. return_io (reg_of_bytes bs))"

text \<open>The constructors as the driver calls them: \<open>RWBits(num_bits, register_address,
  lowest_bit)\<close> on a register of one byte, \<open>ROBits(num_bits, register_address, lowest_bit,
  register_width)\<close>, \<open>RWBit(register_address, bit)\<close>.\<close>

definition RWBits :: "nat \<Rightarrow> nat \<Rightarrow> nat \<Rightarrow> bits_field" where
  "RWBits n reg lowest =
     \<lparr>num_bits = n, register_address = reg, lowest_bit = lowest, register_width = 1\<rparr>"

definition ROBits :: "nat \<Rightarrow> nat \<Rightarrow> nat \<Rightarrow> nat \<Rightarrow> bits_field" where
  "ROBits n reg lowest width =
     \<lparr>num_bits = n, register_address = reg, lowest_bit = lowest, register_width = width\<rparr>"

definition RWBit :: "nat \<Rightarrow> nat \<Rightarrow> bits_field" where
  "RWBit reg b = RWBits 1 reg b"

subsection \<open>Constants of the driver\<close>

definition MSA301_REG_PARTID :: nat where "MSA301_REG_PARTID = 0x01"
definition MSA301_REG_OUT_X_L :: nat where "MSA301_REG_OUT_X_L = 0x02"
definition MSA301_REG_RESRANGE :: nat where "MSA301_REG_RESRANGE = 0x0F"
definition MSA301_REG_ODR :: nat where "MSA301_REG_ODR = 0x10"
definition MSA301_REG_POWERMODE :: nat where "MSA301_REG_POWERMODE = 0x11"

definition STANDARD_GRAVITY :: real where "STANDARD_GRAVITY = 9.806"

definition Mode_NORMAL :: int where "Mode_NORMAL = 0"
definition DataRate_RATE_500_HZ :: int where "DataRate_RATE_500_HZ = 9"
definition BandWidth_WIDTH_250_HZ :: int where "BandWidth_WIDTH_250_HZ = 9"
definition Range_RANGE_4_G :: int where "Range_RANGE_4_G = 1"
definition Resolution_RESOLUTION_14_BIT :: int where "Resolution_RESOLUTION_14_BIT = 0"

subsection \<open>The fields of class MSA301\<close>

definition disable_x :: bits_field where "disable_x = RWBit MSA301_REG_ODR 7"
definition disable_y :: bits_field where "disable_y = RWBit MSA301_REG_ODR 6"
definition disable_z :: bits_field where "disable_z = RWBit MSA301_REG_ODR 5"

definition xyz_raw :: bits_field where "xyz_raw = ROBits 48 MSA301_REG_OUT_X_L 0 6"

definition power_mode :: bits_field where "power_mode = RWBits 2 MSA301_REG_POWERMODE 6"
definition bandwidth :: bits_field where "bandwidth = RWBits 4 MSA301_REG_POWERMODE 1"
definition data_rate :: bits_field where "data_rate = RWBits 4 MSA301_REG_ODR 0"
definition range_bits :: bits_field where "range_bits = RWBits 2 MSA301_REG_RESRANGE 0"
definition resolution :: bits_field where "resolution = RWBits 2 MSA301_REG_RESRANGE 2"

subsection \<open>Construction\<close>

text \<open>\<open>MSA301.__init__\<close>: the identity check, then the chained assignment of the three
  disable bits (targets assigned left to right) and the five defaults, in source order.\<close>

definition MSA301_init :: "unit io" where
  "MSA301_init =
     bind_io (unary_struct_get_B MSA301_REG_PARTID) (\<lambda>part_id.
       if part_id \<noteq> 0x13 then raise_io (AttributeError ''Cannot find a MSA301'')
       else
         bind_io (rwbit_set disable_x False) (\<lambda>_.
         bind_io (rwbit_set disable_y False) (\<lambda>_.
         bind_io (rwbit_set disable_z False) (\<lambda>_.
         bind_io (rwbits_set power_mode Mode_NORMAL) (\<lambda>_.
         bind_io (rwbits_set data_rate DataRate_RATE_500_HZ) (\<lambda>_.
         bind_io (rwbits_set bandwidth BandWidth_WIDTH_250_HZ) (\<lambda>_.
         bind_io (rwbits_set range_bits Range_RANGE_4_G) (\<lambda>_.
         rwbits_set resolution Resolution_RESOLUTION_14_BIT))))))))"

subsection \<open>The acceleration property\<close>

text \<open>\<open>struct.unpack_from("<h", ...)\<close> on two bytes: the unsigned little-endian value,
  less \<open>2 ^ 16\<close> when its top bit is set.\<close>

definition unpack_h :: "byte \<Rightarrow> byte \<Rightarrow> int" where
  "unpack_h lo hi =
     (let u = uint lo + 256 * uint hi in if 32768 \<le> u then u - 65536 else u)"

fun unpack_from_hhh :: "byte list \<Rightarrow> error + (int \<times> int \<times> int)" where
  "unpack_from_hhh (b0 # b1 # b2 # b3 # b4 # b5 # _) =
     Inr (unpack_h b0 b1, unpack_h b2 b3, unpack_h b4 b5)"
| "unpack_from_hhh _ = Inl StructError"

text \<open>The first half of \<open>acceleration\<close>: the 48-bit read, the loop that shifts out six
  bytes (\<open>raw_data >> (8*shift) & 0xFF\<close> for \<open>shift\<close> from 0 to 5) and the unpacking.\<close>

definition acceleration_xyz :: "(int \<times> int \<times> int) io" where
  "acceleration_xyz =
     bind_io (rwbits_get xyz_raw) (\<lambda>raw_data.
       let acc_bytes = map (\<lambda>shift. (word_of_int (drop_bit (8 * shift) raw_data AND 0xFF) :: byte))
                         [0..<6]
       in (\<lambda>s. (s, unpack_from_hhh acc_bytes)))"

text \<open>The scale chosen by the four \<open>if\<close> statements, in source order, from 1.0.\<close>

definition scale_of :: "int \<Rightarrow> real" where
  "scale_of current_range =
     (let scale = 1;
          scale = (if current_range = 3 then 512 else scale);
          scale = (if current_range = 2 then 1024 else scale);
          scale = (if current_range = 1 then 2048 else scale);
          scale = (if current_range = 0 then 4096 else scale)
      in scale)"

definition acceleration :: "(real \<times> real \<times> real) io" where
  "acceleration =
     bind_io acceleration_xyz (\<lambda>(x, y, z).
     bind_io (rwbits_get range_bits) (\<lambda>current_range.
       let scale = scale_of current_range;
           x_acc = (of_int (drop_bit 2 x) / scale) * STANDARD_GRAVITY;
           y_acc = (of_int (drop_bit 2 y) / scale) * STANDARD_GRAVITY;
           z_acc = (of_int (drop_bit 2 z) / scale) * STANDARD_GRAVITY
       in return_io (x_acc, y_acc, z_acc)))"

subsection \<open>Vocabulary for the properties\<close>

text \<open>The value a field has in a register byte, and the byte after a field was
  overwritten; both are what the descriptors compute on a register of one byte.\<close>

definition field_of :: "bits_field \<Rightarrow> byte \<Rightarrow> int" where
  "field_of f b = drop_bit (lowest_bit f) (uint b AND bit_mask f)"

definition field_upd :: "bits_field \<Rightarrow> int \<Rightarrow> byte \<Rightarrow> byte" where
  "field_upd f v b = word_of_int ((uint b AND NOT (bit_mask f)) OR push_bit (lowest_bit f) v)"

text \<open>A field that lies within a register of one byte, and a value that fits a field.\<close>

definition byte_field :: "bits_field \<Rightarrow> bool" where
  "byte_field f \<longleftrightarrow> register_width f = 1 \<and> lowest_bit f + num_bits f \<le> 8"

definition fits :: "bits_field \<Rightarrow> int \<Rightarrow> bool" where
  "fits f v \<longleftrightarrow> 0 \<le> v \<and> v < 2 ^ num_bits f"

text \<open>The example of the spec: X bytes \<open>0x04, 0x00\<close>, range code 1.\<close>

definition s_example :: bus where
  "s_example = \<lparr>regs = (\<lambda>_. 0)(2 := 0x04, 15 := 0x01), log = []\<rparr>"

text \<open>The five configuration fields, and all fields the driver writes.\<close>

definition config_fields :: "bits_field list" where
  "config_fields = [power_mode, bandwidth, data_rate, range_bits, resolution]"

definition all_fields :: "bits_field list" where
  "all_fields = config_fields @ [disable_x, disable_y, disable_z]"

text \<open>The register file after a successful construction: three registers change.\<close>

definition init_regs :: "(nat \<Rightarrow> byte) \<Rightarrow> (nat \<Rightarrow> byte)" where
  "init_regs r = r
     (16 := field_upd data_rate DataRate_RATE_500_HZ
              (field_upd disable_z 0 (field_upd disable_y 0 (field_upd disable_x 0 (r 16)))),
      17 := field_upd bandwidth BandWidth_WIDTH_250_HZ (field_upd power_mode Mode_NORMAL (r 17)),
      15 := field_upd resolution Resolution_RESOLUTION_14_BIT
              (field_upd range_bits Range_RANGE_4_G (r 15)))"

text \<open>The registers written by a list of transactions, in order.\<close>

fun write_regs :: "bus_op list \<Rightarrow> nat list" where
  "write_regs [] = []"
| "write_regs (BusWrite a _ # ops) = a # write_regs ops"
| "write_regs (BusRead _ _ # ops) = write_regs ops"

text \<open>Two devices for the examples: an MSA301 (part id 0x13) with every other register
  at 0xFF, and a device that answers 0xFF everywhere.\<close>

definition s_ok :: bus where
  "s_ok = \<lparr>regs = (\<lambda>_. 0xFF)(1 := 0x13), log = []\<rparr>"

definition s_absent :: bus where
  "s_absent = \<lparr>regs = (\<lambda>_. 0xFF), log = []\<rparr>"

section \<open>Bytes, registers and fields\<close>

lemma int_255_mask: "(255::int) = mask 8"
  by (simp add: mask_eq_exp_minus_1)

lemma reg_of_bytes_single: "reg_of_bytes [b] = uint b"
  by (simp add: reg_of_bytes_def)

lemma bytes_of_reg_1: "bytes_of_reg (Suc 0) r = [word_of_int r]"
proof -
  have "(word_of_int (r AND mask 8) :: byte) = word_of_int r"
    by (rule bit_word_eqI) (simp add: bit_simps)
  then show ?thesis
    unfolding bytes_of_reg_def int_255_mask by simp
qed

lemma bus_read_1: "bus_read a (Suc 0) s = (s\<lparr>log := log s @ [BusRead a (Suc 0)]\<rparr>, Inr [regs s a])"
  by (simp add: bus_read_def)

lemma field_roundtrip_bits:
  fixes v :: int and b :: byte
  assumes "0 \<le> v" "v < push_bit n 1" "l + n \<le> 8"
  shows "drop_bit l (uint (word_of_int ((uint b AND NOT (push_bit l (push_bit n 1 - 1))) OR push_bit l v) :: byte)
                      AND push_bit l (push_bit n 1 - 1)) = v"
proof -
  have m: "push_bit n 1 - 1 = (mask n :: int)" by (simp add: mask_eq_exp_minus_1 push_bit_eq_mult)
  have tv: "take_bit n v = v" using assms by (simp add: take_bit_int_eq_self push_bit_eq_mult)
  have bv: "i < n" if "bit v i" for i
    using that by (metis tv bit_take_bit_iff)
  show ?thesis
    unfolding m
  proof (rule bit_eqI)
    fix k
    show "bit (drop_bit l (uint (word_of_int (uint b AND NOT (push_bit l (mask n)) OR push_bit l v) :: byte) AND push_bit l (mask n))) k = bit v k"
      using assms(3) bv [of k] by (auto simp add: bit_simps)
  qed
qed

lemma field_frame_bits:
  fixes v :: int and b :: byte
  assumes "0 \<le> v" "v < push_bit n 1" "l + n \<le> 8" "k < l \<or> l + n \<le> k"
  shows "bit (word_of_int ((uint b AND NOT (push_bit l (push_bit n 1 - 1))) OR push_bit l v) :: byte) k = bit b k"
proof -
  have m: "push_bit n 1 - 1 = (mask n :: int)" by (simp add: mask_eq_exp_minus_1 push_bit_eq_mult)
  have tv: "take_bit n v = v" using assms by (simp add: take_bit_int_eq_self push_bit_eq_mult)
  have bv: "i < n" if "bit v i" for i
    using that by (metis tv bit_take_bit_iff)
  show ?thesis
    unfolding m
    using assms(3,4) bv [of "k - l"] by (auto simp add: bit_simps dest: bit_imp_le_length)
qed

lemma rwbits_get_byte:
  assumes "register_width f = 1"
  shows "rwbits_get f s =
    (s\<lparr>log := log s @ [BusRead (register_address f) 1]\<rparr>,
     Inr (field_of f (regs s (register_address f))))"
  using assms
  by (simp add: rwbits_get_def bind_io_def return_io_def bus_read_1 reg_of_bytes_single field_of_def)

lemma rwbits_set_byte:
  assumes "register_width f = 1" "fits f v"
  shows "rwbits_set f v s =
    (s\<lparr>regs := (regs s)(register_address f := field_upd f v (regs s (register_address f))),
       log := log s @ [BusRead (register_address f) 1,
                       BusWrite (register_address f) [field_upd f v (regs s (register_address f))]]\<rparr>,
     Inr ())"
  using assms
  by (simp add: rwbits_set_def fits_def push_bit_eq_mult bind_io_def bus_read_1 bus_write_def
      reg_of_bytes_single bytes_of_reg_1 field_upd_def)

lemma field_of_upd_same:
  assumes "byte_field f" "fits f v"
  shows "field_of f (field_upd f v b) = v"
  using assms field_roundtrip_bits [of v "num_bits f" "lowest_bit f" b]
  by (simp add: field_of_def field_upd_def bit_mask_def byte_field_def fits_def push_bit_eq_mult)

lemma bit_field_upd_other:
  assumes "byte_field f" "fits f v" "k < lowest_bit f \<or> lowest_bit f + num_bits f \<le> k"
  shows "bit (field_upd f v b) k = bit b k"
  using assms field_frame_bits [of v "num_bits f" "lowest_bit f" k b]
  by (simp add: field_upd_def bit_mask_def byte_field_def fits_def push_bit_eq_mult)

lemma field_of_bits:
  "bit (field_of g b) k \<longleftrightarrow> k < num_bits g \<and> bit b (lowest_bit g + k)"
proof -
  have m: "push_bit n 1 - 1 = (mask n :: int)" for n
    by (simp add: mask_eq_exp_minus_1 push_bit_eq_mult)
  show ?thesis
    unfolding field_of_def bit_mask_def m by (auto simp add: bit_simps)
qed

lemma field_of_upd_other:
  assumes "byte_field f" "fits f v"
    "lowest_bit g + num_bits g \<le> lowest_bit f \<or> lowest_bit f + num_bits f \<le> lowest_bit g"
  shows "field_of g (field_upd f v b) = field_of g b"
proof (rule bit_eqI)
  fix k
  show "bit (field_of g (field_upd f v b)) k = bit (field_of g b) k"
    using assms bit_field_upd_other [of f v "lowest_bit g + k" b]
    by (auto simp add: field_of_bits)
qed

section \<open>Reading the acceleration\<close>

lemma reg_of_bytes_Cons: "reg_of_bytes (b # bs) = push_bit 8 (reg_of_bytes bs) OR uint b"
  by (simp add: reg_of_bytes_def)

lemma byte_of_reg_of_bytes:
  "i < length bs \<Longrightarrow> (word_of_int (drop_bit (8 * i) (reg_of_bytes bs)) :: byte) = bs ! i"
proof (induction bs arbitrary: i)
  case Nil
  then show ?case by simp
next
  case (Cons b bs)
  show ?case
  proof (cases i)
    case 0
    have "(word_of_int (push_bit 8 (reg_of_bytes bs) OR uint b) :: byte) = b"
      by (rule bit_word_eqI) (auto simp add: bit_simps)
    with 0 show ?thesis by (simp add: reg_of_bytes_Cons)
  next
    case (Suc j)
    have "drop_bit (8 * Suc j) (push_bit 8 (reg_of_bytes bs) OR uint b) = drop_bit (8 * j) (reg_of_bytes bs)"
      by (rule bit_eqI) (auto simp add: bit_simps dest: bit_imp_le_length)
    with Suc Cons show ?thesis by (simp add: reg_of_bytes_Cons)
  qed
qed

lemma shifted_byte:
  assumes "i < 6" "i < length bs"
  shows "(word_of_int (drop_bit (8 * i) (reg_of_bytes bs AND mask 48) AND 0xFF) :: byte) = bs ! i"
proof -
  have "(word_of_int (drop_bit (8 * i) (reg_of_bytes bs AND mask 48) AND mask 8) :: byte)
      = word_of_int (drop_bit (8 * i) (reg_of_bytes bs))"
    using assms(1) by (intro bit_word_eqI) (auto simp add: bit_simps)
  then show ?thesis
    using assms(2) by (simp only: int_255_mask byte_of_reg_of_bytes)
qed

lemma xyz_raw_simps:
  "register_address xyz_raw = 2" "register_width xyz_raw = 6" "lowest_bit xyz_raw = 0"
  "bit_mask xyz_raw = mask 48"
  by (simp_all add: xyz_raw_def ROBits_def MSA301_REG_OUT_X_L_def bit_mask_def mask_eq_exp_minus_1)

lemma upt_6: "[0..<6] = [0, 1, 2, 3, 4, 5::nat]"
  by (simp add: upt_rec)

lemma acceleration_xyz_eq:
  "acceleration_xyz s =
     (s\<lparr>log := log s @ [BusRead 2 6]\<rparr>,
      Inr (unpack_h (regs s 2) (regs s 3), unpack_h (regs s 4) (regs s 5),
           unpack_h (regs s 6) (regs s 7)))"
proof -
  define bs where "bs = map (\<lambda>i. regs s (2 + i)) [0..<6]"
  define raw where "raw = reg_of_bytes bs AND mask 48"
  have len: "length bs = 6" by (simp add: bs_def)
  have rd: "rwbits_get xyz_raw s = (s\<lparr>log := log s @ [BusRead 2 6]\<rparr>, Inr raw)"
    by (simp add: rwbits_get_def bind_io_def return_io_def bus_read_def xyz_raw_simps bs_def raw_def)
  have sh: "map (\<lambda>shift. (word_of_int (drop_bit (8 * shift) raw AND 0xFF) :: byte)) [0..<6] = bs"
  proof (rule nth_equalityI)
    show "length (map (\<lambda>shift. (word_of_int (drop_bit (8 * shift) raw AND 0xFF) :: byte)) [0..<6]) = length bs"
      by (simp add: len)
  next
    fix i
    assume "i < length (map (\<lambda>shift. (word_of_int (drop_bit (8 * shift) raw AND 0xFF) :: byte)) [0..<6])"
    then have i: "i < 6" by simp
    then have "(word_of_int (drop_bit (8 * i) raw AND 0xFF) :: byte) = bs ! i"
      unfolding raw_def using len by (intro shifted_byte) simp_all
    with i show "map (\<lambda>shift. (word_of_int (drop_bit (8 * shift) raw AND 0xFF) :: byte)) [0..<6] ! i = bs ! i"
      by simp
  qed
  have bs6: "bs = [regs s 2, regs s 3, regs s 4, regs s 5, regs s 6, regs s 7]"
    unfolding bs_def by (simp only: upt_6 list.map) simp
  show ?thesis
    unfolding acceleration_xyz_def bind_io_def rd
    by (simp only: sh Let_def prod.case sum.case) (simp add: bs6)
qed

lemma unpack_h_sint: "unpack_h lo hi = sint (word_cat hi lo :: 16 word)"
proof -
  define u where "u = uint lo + 256 * uint hi"
  have lo: "0 \<le> uint lo" "uint lo < 256" and hi: "0 \<le> uint hi" "uint hi < 256"
    using uint_bounded [of lo] uint_bounded [of hi] by simp_all
  have w: "(word_cat hi lo :: 16 word) = word_of_int u"
    by (simp add: word_cat_eq push_bit_eq_mult u_def)
  show ?thesis
  proof (cases "32768 \<le> u")
    case True
    have "- 32768 \<le> u - 65536" "u - 65536 < 32768"
      using True lo hi unfolding u_def by linarith+
    then have "sint (word_of_int (u - 65536) :: 16 word) = u - 65536"
      by (simp only: sint_sbintrunc') (simp add: signed_take_bit_int_eq_self)
    moreover have "(word_of_int (u - 65536) :: 16 word) = word_of_int u"
      by simp
    ultimately have "sint (word_of_int u :: 16 word) = u - 65536"
      by (simp only:)
    then show ?thesis
      using True by (simp add: unpack_h_def w u_def [symmetric])
  next
    case False
    have "- 32768 \<le> u" "u < 32768"
      using False lo hi unfolding u_def by linarith+
    then have "sint (word_of_int u :: 16 word) = u"
      by (simp only: sint_sbintrunc') (simp add: signed_take_bit_int_eq_self)
    then show ?thesis
      using False by (simp add: unpack_h_def w u_def [symmetric])
  qed
qed

lemma range_bits_simps:
  "register_address range_bits = 15" "register_width range_bits = 1"
  "lowest_bit range_bits = 0" "num_bits range_bits = 2"
  by (simp_all add: range_bits_def RWBits_def MSA301_REG_RESRANGE_def)

lemma field_of_range_bits: "field_of range_bits b = uint (b AND 3)"
proof -
  have "(3::int) = mask 2" by (simp add: mask_eq_exp_minus_1)
  then show ?thesis
    by (simp add: field_of_def bit_mask_def range_bits_simps uint_and)
qed

lemma range_code_cases: "uint ((b::byte) AND 3) \<in> {0, 1, 2, 3}"
proof -
  have "uint (b AND 3) \<le> 3"
    using AND_upper2 [of 3 "uint b"] by (simp add: uint_and)
  moreover have "0 \<le> uint (b AND 3)" by simp
  ultimately show ?thesis unfolding insert_iff empty_iff by presburger
qed

lemma scale_of_table:
  "r \<in> {0, 1, 2, 3} \<Longrightarrow> scale_of r = [4096, 2048, 1024, 512] ! nat r"
  by (auto simp add: scale_of_def)

lemma acceleration_eq:
  "acceleration s =
     (s\<lparr>log := log s @ [BusRead 2 6, BusRead 15 1]\<rparr>,
      Inr ((of_int (drop_bit 2 (unpack_h (regs s 2) (regs s 3))) / scale_of (uint (regs s 15 AND 3))) * STANDARD_GRAVITY,
           (of_int (drop_bit 2 (unpack_h (regs s 4) (regs s 5))) / scale_of (uint (regs s 15 AND 3))) * STANDARD_GRAVITY,
           (of_int (drop_bit 2 (unpack_h (regs s 6) (regs s 7))) / scale_of (uint (regs s 15 AND 3))) * STANDARD_GRAVITY))"
  by (simp add: acceleration_def bind_io_def acceleration_xyz_eq rwbits_get_byte range_bits_simps
      field_of_range_bits return_io_def Let_def)

text \<open>
  C1. Whatever the registers hold, the range code \<open>r\<close> read from the range field (bits 0
  and 1 of register 0x0F) is one of 0, 1, 2, 3, and \<open>acceleration\<close> returns for each axis
  the shifted sample divided by entry \<open>r\<close> of the table 4096, 2048, 1024, 512 and
  multiplied by 9.806 (in exact arithmetic).
\<close>

theorem acceleration_scale_by_range:
  "(let r = uint (regs s MSA301_REG_RESRANGE AND 3);
        divisor = [4096, 2048, 1024, 512] ! nat r;
        shifted = (\<lambda>lo hi. drop_bit 2 (unpack_h (regs s lo) (regs s hi)))
    in snd (rwbits_get range_bits s) = Inr r \<and> r \<in> {0, 1, 2, 3} \<and>
       snd (acceleration s) =
         Inr ((of_int (shifted 2 3) / divisor) * 9.806,
              (of_int (shifted 4 5) / divisor) * 9.806,
              (of_int (shifted 6 7) / divisor) * 9.806))"
  using range_code_cases [of "regs s 15"] scale_of_table [of "uint (regs s 15 AND 3)"]
  by (simp add: Let_def acceleration_eq rwbits_get_byte range_bits_simps field_of_range_bits
      MSA301_REG_RESRANGE_def STANDARD_GRAVITY_def del: insert_iff)

text \<open>The example of the spec: X bytes \<open>0x04, 0x00\<close> at range code 1 give
  \<open>(1 / 2048) * 9.806\<close>.\<close>

theorem acceleration_scale_by_range_witness:
  "snd (acceleration s_example) = Inr (9.806 / 2048, 0, 0)"
  using acceleration_scale_by_range [of s_example]
  by (simp add: s_example_def MSA301_REG_RESRANGE_def unpack_h_def Let_def)

text \<open>
  C2. The six bytes of registers 0x02 to 0x07 are read in one transaction and unpacked
  into three signed 16-bit integers, each from a low byte followed by its high byte, in
  the order X, Y, Z.
\<close>

theorem acceleration_little_endian:
  "acceleration_xyz s =
     (s\<lparr>log := log s @ [BusRead MSA301_REG_OUT_X_L 6]\<rparr>,
      Inr (sint (word_cat (regs s 3) (regs s 2) :: 16 word),
           sint (word_cat (regs s 5) (regs s 4) :: 16 word),
           sint (word_cat (regs s 7) (regs s 6) :: 16 word)))"
  by (simp add: acceleration_xyz_eq unpack_h_sint MSA301_REG_OUT_X_L_def)

text \<open>
  C3. The shift by 2 that \<open>acceleration\<close> applies to each signed 16-bit value is the
  arithmetic one: the sample that is scaled is the signed reading of the 16-bit word
  shifted right with its sign bit repeated, a value from -8192 up to 8191. In particular
  the bytes \<open>0xFC, 0xFF\<close> (the word 0xFFFC, that is -4) give -1.
\<close>

theorem acceleration_shift_arithmetic:
  "(let w = (\<lambda>lo hi. word_cat (regs s hi) (regs s lo) :: 16 word);
        sample = (\<lambda>lo hi. sint (signed_drop_bit 2 (w lo hi)));
        scale = scale_of (uint (regs s MSA301_REG_RESRANGE AND 3))
    in snd (acceleration s) =
         Inr ((of_int (sample 2 3) / scale) * STANDARD_GRAVITY,
              (of_int (sample 4 5) / scale) * STANDARD_GRAVITY,
              (of_int (sample 6 7) / scale) * STANDARD_GRAVITY)
       \<and> - 8192 \<le> sample 2 3 \<and> sample 2 3 < 8192
       \<and> - 8192 \<le> sample 4 5 \<and> sample 4 5 < 8192
       \<and> - 8192 \<le> sample 6 7 \<and> sample 6 7 < 8192)
   \<and> unpack_h 0xFC 0xFF = - 4 \<and> drop_bit 2 (unpack_h 0xFC 0xFF) = - 1"
proof -
  have b: "- 8192 \<le> sint (signed_drop_bit 2 w) \<and> sint (signed_drop_bit 2 w) < 8192" for w :: "16 word"
    using sint_greater_eq [of w] sint_less [of w]
    by (simp add: sint_signed_drop_bit_eq drop_bit_eq_div) presburger
  have general: "(let w = (\<lambda>lo hi. word_cat (regs s hi) (regs s lo) :: 16 word);
        sample = (\<lambda>lo hi. sint (signed_drop_bit 2 (w lo hi)));
        scale = scale_of (uint (regs s MSA301_REG_RESRANGE AND 3))
    in snd (acceleration s) =
         Inr ((of_int (sample 2 3) / scale) * STANDARD_GRAVITY,
              (of_int (sample 4 5) / scale) * STANDARD_GRAVITY,
              (of_int (sample 6 7) / scale) * STANDARD_GRAVITY)
       \<and> - 8192 \<le> sample 2 3 \<and> sample 2 3 < 8192
       \<and> - 8192 \<le> sample 4 5 \<and> sample 4 5 < 8192
       \<and> - 8192 \<le> sample 6 7 \<and> sample 6 7 < 8192)"
    using b
    by (simp add: Let_def acceleration_eq unpack_h_sint sint_signed_drop_bit_eq MSA301_REG_RESRANGE_def)
  have particular: "unpack_h 0xFC 0xFF = - 4 \<and> drop_bit 2 (unpack_h 0xFC 0xFF) = - 1"
    by (simp add: unpack_h_def)
  from general particular show ?thesis by (rule conjI)
qed

text \<open>
  C10. Reading \<open>acceleration\<close> leaves every register as it was and issues two
  transactions, both reads: six bytes from 0x02 and one byte from 0x0F. It always returns
  a value.
\<close>

theorem acceleration_reads_only:
  "regs (fst (acceleration s)) = regs s
   \<and> log (fst (acceleration s)) = log s @ [BusRead MSA301_REG_OUT_X_L 6, BusRead MSA301_REG_RESRANGE 1]
   \<and> filter is_write (log (fst (acceleration s))) = filter is_write (log s)
   \<and> (\<exists>a. snd (acceleration s) = Inr a)"
  by (simp add: acceleration_eq MSA301_REG_OUT_X_L_def MSA301_REG_RESRANGE_def)

section \<open>Writing and reading configuration fields\<close>

lemma power_mode_simps:
  "register_address power_mode = 17" "register_width power_mode = 1"
  "lowest_bit power_mode = 6" "num_bits power_mode = 2"
  by (simp_all add: power_mode_def RWBits_def MSA301_REG_POWERMODE_def)

lemma bandwidth_simps:
  "register_address bandwidth = 17" "register_width bandwidth = 1"
  "lowest_bit bandwidth = 1" "num_bits bandwidth = 4"
  by (simp_all add: bandwidth_def RWBits_def MSA301_REG_POWERMODE_def)

lemma data_rate_simps:
  "register_address data_rate = 16" "register_width data_rate = 1"
  "lowest_bit data_rate = 0" "num_bits data_rate = 4"
  by (simp_all add: data_rate_def RWBits_def MSA301_REG_ODR_def)

lemma resolution_simps:
  "register_address resolution = 15" "register_width resolution = 1"
  "lowest_bit resolution = 2" "num_bits resolution = 2"
  by (simp_all add: resolution_def RWBits_def MSA301_REG_RESRANGE_def)

lemma disable_x_simps:
  "register_address disable_x = 16" "register_width disable_x = 1"
  "lowest_bit disable_x = 7" "num_bits disable_x = 1"
  by (simp_all add: disable_x_def RWBit_def RWBits_def MSA301_REG_ODR_def)

lemma disable_y_simps:
  "register_address disable_y = 16" "register_width disable_y = 1"
  "lowest_bit disable_y = 6" "num_bits disable_y = 1"
  by (simp_all add: disable_y_def RWBit_def RWBits_def MSA301_REG_ODR_def)

lemma disable_z_simps:
  "register_address disable_z = 16" "register_width disable_z = 1"
  "lowest_bit disable_z = 5" "num_bits disable_z = 1"
  by (simp_all add: disable_z_def RWBit_def RWBits_def MSA301_REG_ODR_def)

lemmas field_simps_all = power_mode_simps bandwidth_simps data_rate_simps range_bits_simps
  resolution_simps disable_x_simps disable_y_simps disable_z_simps

lemma all_fields_cases:
  assumes "g \<in> set all_fields"
  obtains "g = power_mode" | "g = bandwidth" | "g = data_rate" | "g = range_bits"
    | "g = resolution" | "g = disable_x" | "g = disable_y" | "g = disable_z"
  using assms by (auto simp add: all_fields_def config_fields_def)

lemma config_fields_cases:
  assumes "f \<in> set config_fields"
  obtains "f = power_mode" | "f = bandwidth" | "f = data_rate" | "f = range_bits"
    | "f = resolution"
  using assms by (auto simp add: config_fields_def)

lemma all_fields_byte_field: "g \<in> set all_fields \<Longrightarrow> byte_field g"
  by (erule all_fields_cases) (simp_all add: byte_field_def field_simps_all)

lemma config_fields_all: "f \<in> set config_fields \<Longrightarrow> f \<in> set all_fields"
  by (simp add: all_fields_def)

lemma fields_separate:
  assumes "f \<in> set config_fields" "g \<in> set all_fields" "g \<noteq> f"
  shows "register_address g \<noteq> register_address f
     \<or> lowest_bit g + num_bits g \<le> lowest_bit f \<or> lowest_bit f + num_bits f \<le> lowest_bit g"
proof -
  from assms(1) have f: "f = power_mode \<or> f = bandwidth \<or> f = data_rate \<or> f = range_bits
      \<or> f = resolution"
    by (simp add: config_fields_def)
  from assms(2) have g: "g = power_mode \<or> g = bandwidth \<or> g = data_rate \<or> g = range_bits
      \<or> g = resolution \<or> g = disable_x \<or> g = disable_y \<or> g = disable_z"
    by (simp add: all_fields_def config_fields_def)
  from f g assms(3) show ?thesis
    by (elim disjE) (simp_all add: field_simps_all)
qed

lemma fst_rwbits_set_byte:
  assumes "byte_field f" "fits f v"
  shows "regs (fst (rwbits_set f v s)) =
           (regs s)(register_address f := field_upd f v (regs s (register_address f)))"
    and "snd (rwbits_set f v s) = Inr ()"
  using assms by (simp_all add: rwbits_set_byte byte_field_def)

lemma snd_rwbits_get_byte:
  assumes "byte_field g"
  shows "snd (rwbits_get g s) = Inr (field_of g (regs s (register_address g)))"
  using assms by (simp add: rwbits_get_byte byte_field_def)

text \<open>
  C6. For each of the five configuration fields and every value from 0 up to
  \<open>2 ^ width - 1\<close>, setting the field and then reading it returns the value, whatever
  the registers held before.
\<close>

theorem config_field_roundtrip:
  assumes "f \<in> set config_fields" "0 \<le> v" "v < 2 ^ num_bits f"
  shows "snd (bind_io (rwbits_set f v) (\<lambda>_. rwbits_get f) s) = Inr v"
proof -
  have bf: "byte_field f"
    using assms(1) by (simp add: all_fields_byte_field config_fields_all)
  have fv: "fits f v"
    using assms(2,3) by (simp add: fits_def)
  have w: "register_width f = 1"
    using bf by (simp add: byte_field_def)
  show ?thesis
    by (simp add: bind_io_def rwbits_set_byte [OF w fv] rwbits_get_byte [OF w]
        field_of_upd_same [OF bf fv])
qed

text \<open>Bandwidth set to 9 on the device \<open>s_ok\<close> reads 9.\<close>

theorem config_field_roundtrip_witness:
  "bandwidth \<in> set config_fields \<and> (0::int) \<le> 9 \<and> (9::int) < 2 ^ num_bits bandwidth
   \<and> snd (bind_io (rwbits_set bandwidth 9) (\<lambda>_. rwbits_get bandwidth) s_ok) = Inr 9"
proof -
  have h: "bandwidth \<in> set config_fields" "(0::int) \<le> 9" "(9::int) < 2 ^ num_bits bandwidth"
    by (simp_all add: config_fields_def bandwidth_simps)
  show ?thesis
    using h config_field_roundtrip [OF h, of s_ok] by simp
qed

text \<open>
  C7. Setting a configuration field to a value that fits succeeds and changes nothing
  but the bits of that field: every other register, and every bit of the field's register
  outside the field, is as before, so every other field of the driver reads as before. For
  power-mode and bandwidth, which share register 0x11, this holds in both directions.
\<close>

theorem config_field_write_frame:
  assumes "f \<in> set config_fields" "0 \<le> v" "v < 2 ^ num_bits f"
  shows "snd (rwbits_set f v s) = Inr ()
     \<and> (\<forall>a k. a \<noteq> register_address f \<or> k < lowest_bit f \<or> lowest_bit f + num_bits f \<le> k
            \<longrightarrow> bit (regs (fst (rwbits_set f v s)) a) k = bit (regs s a) k)
     \<and> (\<forall>g \<in> set all_fields. g \<noteq> f
            \<longrightarrow> snd (rwbits_get g (fst (rwbits_set f v s))) = snd (rwbits_get g s))"
proof -
  have bf: "byte_field f"
    using assms(1) by (simp add: all_fields_byte_field config_fields_all)
  have fv: "fits f v"
    using assms(2,3) by (simp add: fits_def)
  note st = fst_rwbits_set_byte [OF bf fv]
  have bits: "bit (regs (fst (rwbits_set f v s)) a) k = bit (regs s a) k"
    if "a \<noteq> register_address f \<or> k < lowest_bit f \<or> lowest_bit f + num_bits f \<le> k" for a k
    using that by (auto simp add: st(1) bit_field_upd_other [OF bf fv])
  have sib: "snd (rwbits_get g (fst (rwbits_set f v s))) = snd (rwbits_get g s)"
    if g: "g \<in> set all_fields" "g \<noteq> f" for g
  proof -
    have bg: "byte_field g" using g(1) by (rule all_fields_byte_field)
    show ?thesis
      using fields_separate [OF assms(1) g]
      by (auto simp add: snd_rwbits_get_byte [OF bg] st(1) field_of_upd_other [OF bf fv])
  qed
  from st(2) bits sib show ?thesis by blast
qed

lemma fields_distinct: "bandwidth \<noteq> power_mode"
  using bandwidth_simps(3) power_mode_simps(3) by auto

text \<open>On the device \<open>s_ok\<close>: setting power-mode to 2 leaves bandwidth at 15, and setting
  bandwidth to 5 leaves power-mode at 3.\<close>

theorem config_field_write_frame_witness:
  "power_mode \<in> set config_fields \<and> (0::int) \<le> 2 \<and> (2::int) < 2 ^ num_bits power_mode
   \<and> bandwidth \<in> set all_fields \<and> bandwidth \<noteq> power_mode
   \<and> snd (rwbits_get bandwidth s_ok) = Inr 15
   \<and> snd (rwbits_get bandwidth (fst (rwbits_set power_mode 2 s_ok))) = Inr 15
   \<and> bit (regs (fst (rwbits_set power_mode 2 s_ok)) 17) 0 = bit (regs s_ok 17) 0
   \<and> bandwidth \<in> set config_fields \<and> (0::int) \<le> 5 \<and> (5::int) < 2 ^ num_bits bandwidth
   \<and> power_mode \<in> set all_fields \<and> power_mode \<noteq> bandwidth
   \<and> snd (rwbits_get power_mode s_ok) = Inr 3
   \<and> snd (rwbits_get power_mode (fst (rwbits_set bandwidth 5 s_ok))) = Inr 3"
proof -
  have h: "power_mode \<in> set config_fields" "(0::int) \<le> 2" "(2::int) < 2 ^ num_bits power_mode"
    by (simp_all add: config_fields_def power_mode_simps)
  have g: "bandwidth \<in> set all_fields" "bandwidth \<noteq> power_mode"
    by (simp_all add: all_fields_def config_fields_def fields_distinct)
  have h': "bandwidth \<in> set config_fields" "(0::int) \<le> 5" "(5::int) < 2 ^ num_bits bandwidth"
    by (simp_all add: config_fields_def bandwidth_simps)
  have g': "power_mode \<in> set all_fields" "power_mode \<noteq> bandwidth"
    using fields_distinct by (simp_all add: all_fields_def config_fields_def)
  have v: "snd (rwbits_get bandwidth s_ok) = Inr 15"
    by (simp add: rwbits_get_byte bandwidth_simps field_of_def bit_mask_def s_ok_def)
  have v': "snd (rwbits_get power_mode s_ok) = Inr 3"
    by (simp add: rwbits_get_byte power_mode_simps field_of_def bit_mask_def s_ok_def)
  show ?thesis
    using h g h' g' v v' config_field_write_frame [OF h, of s_ok]
      config_field_write_frame [OF h', of s_ok]
    by (simp add: power_mode_simps)
qed

section \<open>Construction\<close>

lemma unary_struct_get_B_eq:
  "unary_struct_get_B reg s = (s\<lparr>log := log s @ [BusRead reg 1]\<rparr>, Inr (uint (regs s reg)))"
  by (simp add: unary_struct_get_B_def bind_io_def return_io_def bus_read_1 reg_of_bytes_single)

lemma uint_part_id: "uint (b::byte) = 0x13 \<longleftrightarrow> b = 0x13"
  by (simp add: word_uint_eq_iff)

text \<open>
  C4. When the part-id register holds anything but 0x13, construction raises
  AttributeError("Cannot find a MSA301"), the spec's DeviceNotFoundError; the only
  transaction is the read of the part-id register, no write follows, and the registers are
  unchanged.
\<close>

theorem init_wrong_part_id:
  assumes "regs s MSA301_REG_PARTID \<noteq> 0x13"
  shows "snd (MSA301_init s) = Inl (AttributeError ''Cannot find a MSA301'')
     \<and> regs (fst (MSA301_init s)) = regs s
     \<and> log (fst (MSA301_init s)) = log s @ [BusRead MSA301_REG_PARTID 1]
     \<and> filter is_write (log (fst (MSA301_init s))) = filter is_write (log s)"
  using assms
  by (simp add: MSA301_init_def bind_io_def unary_struct_get_B_eq uint_part_id raise_io_def)

text \<open>A device that answers 0xFF as its part id: one read, then the exception.\<close>

theorem init_wrong_part_id_witness:
  "regs s_absent MSA301_REG_PARTID \<noteq> 0x13
   \<and> MSA301_init s_absent
       = (s_absent\<lparr>log := [BusRead 1 1]\<rparr>, Inl (AttributeError ''Cannot find a MSA301''))"
proof -
  have h: "regs s_absent MSA301_REG_PARTID \<noteq> 0x13"
    by (simp add: s_absent_def)
  show ?thesis
    using h init_wrong_part_id [OF h]
    by (simp add: s_absent_def MSA301_REG_PARTID_def prod_eq_iff)
qed

lemma defaults_fit:
  "fits disable_x 0" "fits disable_y 0" "fits disable_z 0"
  "fits power_mode Mode_NORMAL" "fits data_rate DataRate_RATE_500_HZ"
  "fits bandwidth BandWidth_WIDTH_250_HZ" "fits range_bits Range_RANGE_4_G"
  "fits resolution Resolution_RESOLUTION_14_BIT"
  by (simp_all add: fits_def field_simps_all Mode_NORMAL_def DataRate_RATE_500_HZ_def
      BandWidth_WIDTH_250_HZ_def Range_RANGE_4_G_def Resolution_RESOLUTION_14_BIT_def)

lemma set_then:
  assumes "register_width f = 1" "fits f v"
  shows "bind_io (rwbits_set f v) k s =
    k () (s\<lparr>regs := (regs s)(register_address f := field_upd f v (regs s (register_address f))),
       log := log s @ [BusRead (register_address f) 1,
                       BusWrite (register_address f) [field_upd f v (regs s (register_address f))]]\<rparr>)"
  by (simp add: bind_io_def rwbits_set_byte [OF assms])

lemma init_ok:
  assumes "regs s MSA301_REG_PARTID = 0x13"
  shows "snd (MSA301_init s) = Inr ()" "regs (fst (MSA301_init s)) = init_regs (regs s)"
  using assms
  by (simp_all add: MSA301_init_def bind_io_def [of "unary_struct_get_B MSA301_REG_PARTID"]
      unary_struct_get_B_eq rwbit_set_def set_then defaults_fit field_simps_all
      rwbits_set_byte init_regs_def fun_upd_twist)

lemma write_regs_append: "write_regs (xs @ ys) = write_regs xs @ write_regs ys"
  by (induction xs rule: write_regs.induct) simp_all

lemma init_writes:
  assumes "regs s MSA301_REG_PARTID = 0x13"
  shows "write_regs (log (fst (MSA301_init s))) = write_regs (log s) @ [16, 16, 16, 17, 16, 17, 15, 15]"
  using assms
  by (simp add: MSA301_init_def bind_io_def [of "unary_struct_get_B MSA301_REG_PARTID"]
      unary_struct_get_B_eq rwbit_set_def set_then defaults_fit field_simps_all
      rwbits_set_byte write_regs_append)

lemma all_byte_fields:
  "byte_field power_mode" "byte_field bandwidth" "byte_field data_rate" "byte_field range_bits"
  "byte_field resolution" "byte_field disable_x" "byte_field disable_y" "byte_field disable_z"
  by (simp_all add: byte_field_def field_simps_all)

lemma init_regs_fields:
  "field_of power_mode (init_regs r 17) = Mode_NORMAL"
  "field_of data_rate (init_regs r 16) = DataRate_RATE_500_HZ"
  "field_of bandwidth (init_regs r 17) = BandWidth_WIDTH_250_HZ"
  "field_of range_bits (init_regs r 15) = Range_RANGE_4_G"
  "field_of resolution (init_regs r 15) = Resolution_RESOLUTION_14_BIT"
  "field_of disable_x (init_regs r 16) = 0"
  "field_of disable_y (init_regs r 16) = 0"
  "field_of disable_z (init_regs r 16) = 0"
  by (simp_all add: init_regs_def field_of_upd_same field_of_upd_other all_byte_fields
      defaults_fit field_simps_all)

text \<open>
  C5. When the part-id register holds 0x13, construction succeeds, and afterwards
  power-mode reads 0, data-rate 9 (0b1001), bandwidth 9 (0b1001), range 1 and resolution 0.
  The writes go to registers 0x10 (three times, the disable bits), 0x11, 0x10, 0x11, 0x0F
  and 0x0F, in this order.
\<close>

theorem init_defaults:
  assumes "regs s MSA301_REG_PARTID = 0x13"
  shows "snd (MSA301_init s) = Inr ()
     \<and> snd (rwbits_get power_mode (fst (MSA301_init s))) = Inr 0
     \<and> snd (rwbits_get data_rate (fst (MSA301_init s))) = Inr 9
     \<and> snd (rwbits_get bandwidth (fst (MSA301_init s))) = Inr 9
     \<and> snd (rwbits_get range_bits (fst (MSA301_init s))) = Inr 1
     \<and> snd (rwbits_get resolution (fst (MSA301_init s))) = Inr 0
     \<and> write_regs (log (fst (MSA301_init s)))
         = write_regs (log s) @ [0x10, 0x10, 0x10, 0x11, 0x10, 0x11, 0x0F, 0x0F]"
  using init_ok [OF assms] init_writes [OF assms]
  by (simp add: snd_rwbits_get_byte all_byte_fields field_simps_all init_regs_fields
      Mode_NORMAL_def DataRate_RATE_500_HZ_def BandWidth_WIDTH_250_HZ_def Range_RANGE_4_G_def
      Resolution_RESOLUTION_14_BIT_def)

text \<open>On the device \<open>s_ok\<close>, where every field holds ones before construction.\<close>

theorem init_defaults_witness:
  "regs s_ok MSA301_REG_PARTID = 0x13
   \<and> snd (MSA301_init s_ok) = Inr ()
   \<and> snd (rwbits_get power_mode (fst (MSA301_init s_ok))) = Inr 0
   \<and> snd (rwbits_get data_rate (fst (MSA301_init s_ok))) = Inr 9
   \<and> snd (rwbits_get bandwidth (fst (MSA301_init s_ok))) = Inr 9
   \<and> snd (rwbits_get range_bits (fst (MSA301_init s_ok))) = Inr 1
   \<and> snd (rwbits_get resolution (fst (MSA301_init s_ok))) = Inr 0"
proof -
  have h: "regs s_ok MSA301_REG_PARTID = 0x13"
    by (simp add: s_ok_def MSA301_REG_PARTID_def)
  show ?thesis
    using h init_defaults [OF h] by simp
qed

lemma bit_of_field_0:
  assumes "field_of g b = 0" "num_bits g = 1"
  shows "\<not> bit b (lowest_bit g)"
  using field_of_bits [of g b 0] assms by simp

text \<open>
  C9. When the part-id register holds 0x13, construction clears bits 7, 6 and 5 of
  register 0x10: afterwards the three disable bits read False.
\<close>

theorem init_enables_axes:
  assumes "regs s MSA301_REG_PARTID = 0x13"
  shows "snd (rwbit_get disable_x (fst (MSA301_init s))) = Inr False
     \<and> snd (rwbit_get disable_y (fst (MSA301_init s))) = Inr False
     \<and> snd (rwbit_get disable_z (fst (MSA301_init s))) = Inr False
     \<and> \<not> bit (regs (fst (MSA301_init s)) MSA301_REG_ODR) 7
     \<and> \<not> bit (regs (fst (MSA301_init s)) MSA301_REG_ODR) 6
     \<and> \<not> bit (regs (fst (MSA301_init s)) MSA301_REG_ODR) 5"
  using init_ok(2) [OF assms]
    bit_of_field_0 [OF init_regs_fields(6) disable_x_simps(4), of "regs s"]
    bit_of_field_0 [OF init_regs_fields(7) disable_y_simps(4), of "regs s"]
    bit_of_field_0 [OF init_regs_fields(8) disable_z_simps(4), of "regs s"]
  by (simp add: rwbit_get_def bind_io_def rwbits_get_byte return_io_def field_simps_all
      init_regs_fields MSA301_REG_ODR_def)

text \<open>On the device \<open>s_ok\<close> bit 7 of register 0x10 is set before construction and clear
  after it.\<close>

theorem init_enables_axes_witness:
  "regs s_ok MSA301_REG_PARTID = 0x13
   \<and> bit (regs s_ok MSA301_REG_ODR) 7
   \<and> \<not> bit (regs (fst (MSA301_init s_ok)) MSA301_REG_ODR) 7
   \<and> snd (rwbit_get disable_x (fst (MSA301_init s_ok))) = Inr False"
proof -
  have h: "regs s_ok MSA301_REG_PARTID = 0x13"
    by (simp add: s_ok_def MSA301_REG_PARTID_def)
  have b: "bit (regs s_ok MSA301_REG_ODR) 7"
    by (simp add: s_ok_def MSA301_REG_ODR_def bit_simps)
  show ?thesis
    using h b init_enables_axes [OF h] by simp
qed

end
